theory Spec2Isabelle
  imports Complex_Main
begin

section \<open>Arrays, errors and the random source\<close>

text \<open>
  The samplers of \<^verbatim>\<open>dppy/finite_dpps/projection_kernel_sampler.py\<close> work on numpy
  arrays. The model is in exact arithmetic: a \<^verbatim>\<open>float64\<close> entry is a real number and a
  \<^verbatim>\<open>complex128\<close> entry a complex number. The element type of the kernel is kept, since
  the source branches on it (\<^verbatim>\<open>np.iscomplexobj\<close>) and numpy refuses an in-place
  operation that would store a complex result into a real array. Arrays are lists (a matrix
  is the list of its rows). numpy's \<^verbatim>\<open>inf\<close> and \<^verbatim>\<open>nan\<close> are not represented: a division
  by zero and the square root of a negative number raise nothing in numpy, and here they
  take the value HOL gives them.
\<close>

datatype error = AssertionError | ValueError string | TypeError string

datatype ndarray2 = Float64 "real list list" | Complex128 "complex list list"

fun entries :: "ndarray2 \<Rightarrow> complex list list" where
  "entries (Float64 m) = map (map complex_of_real) m"
| "entries (Complex128 m) = m"

fun iscomplexobj :: "ndarray2 \<Rightarrow> bool" where
  "iscomplexobj (Float64 m) = False"
| "iscomplexobj (Complex128 m) = True"

definition len :: "ndarray2 \<Rightarrow> nat" where
  "len K = length (entries K)"

definition tab :: "nat \<Rightarrow> (nat \<Rightarrow> 'a) \<Rightarrow> 'a list" where
  "tab n f = map f [0..<n]"

definition tab2 :: "nat \<Rightarrow> nat \<Rightarrow> (nat \<Rightarrow> nat \<Rightarrow> 'a) \<Rightarrow> 'a list list" where
  "tab2 n m f = tab n (\<lambda>r. tab m (f r))"

definition dot :: "complex list \<Rightarrow> complex list \<Rightarrow> complex" where
  "dot x y = sum_list (map2 (*) x y)"

text \<open>\<^verbatim>\<open>np.trace(K)\<close>, and \<^verbatim>\<open>np.rint(...).astype(int)\<close>: rounding to the nearest integer,
  a tie going to the even one; the cast to \<^verbatim>\<open>int\<close> keeps the real part.\<close>

definition trace :: "ndarray2 \<Rightarrow> complex" where
  "trace K = sum_list (tab (len K) (\<lambda>i. entries K ! i ! i))"

definition rint :: "real \<Rightarrow> int" where
  "rint x =
     (let f = \<lfloor>x\<rfloor>; r = x - of_int f
      in if r < 1 / 2 then f else if 1 / 2 < r then f + 1 else if even f then f else f + 1)"

definition rank_of :: "ndarray2 \<Rightarrow> int" where
  "rank_of K = rint (Re (trace K))"

definition diagonal_real :: "complex list list \<Rightarrow> real list" where
  "diagonal_real A = tab (length A) (\<lambda>i. Re (A ! i ! i))"

text \<open>
  The random source is the \<^verbatim>\<open>RandomState\<close> that \<^verbatim>\<open>check_random_state\<close> hands back (that
  call draws nothing): a stream of uniform draws from [0, 1) and the number of draws
  consumed so far.
\<close>

record RandomState =
  draws :: "nat \<Rightarrow> real"
  pos :: nat

definition valid_rng :: "RandomState \<Rightarrow> bool" where
  "valid_rng rng = (\<forall>n. 0 \<le> draws rng n \<and> draws rng n < 1)"

definition random_sample :: "RandomState \<Rightarrow> real \<times> RandomState" where
  "random_sample rng = (draws rng (pos rng), rng\<lparr>pos := Suc (pos rng)\<rparr>)"

definition cumsum :: "real list \<Rightarrow> real list" where
  "cumsum p = tab (length p) (\<lambda>k. sum_list (take (Suc k) p))"

definition searchsorted_right :: "real list \<Rightarrow> real \<Rightarrow> nat" where
  "searchsorted_right cdf u = length (takeWhile (\<lambda>x. x \<le> u) cdf)"

definition atol :: real where
  "atol = 1 / 2 ^ 26"

text \<open>
  \<^verbatim>\<open>rng.choice(a, p=p)\<close> of numpy's \<^verbatim>\<open>RandomState\<close>, for one sample: the arguments are
  validated (\<^verbatim>\<open>a\<close> not empty, \<^verbatim>\<open>p\<close> as long as \<^verbatim>\<open>a\<close>, no negative entry, the entries
  summing to 1 up to the square root of the machine epsilon), then one uniform draw is
  looked up in the normalised cumulative sums with \<^verbatim>\<open>searchsorted(side='right')\<close>.
  An error leaves the random source as it was.
\<close>

definition choice :: "nat list \<Rightarrow> real list \<Rightarrow> RandomState \<Rightarrow> (error + nat) \<times> RandomState" where
  "choice a p rng =
     (if a = [] then (Inl (ValueError ''a cannot be empty unless no samples are taken''), rng)
      else if length p \<noteq> length a then (Inl (ValueError ''a and p must have same size''), rng)
      else if \<exists>x \<in> set p. x < 0 then (Inl (ValueError ''probabilities are not non-negative''), rng)
      else if atol < \<bar>sum_list p - 1\<bar> then (Inl (ValueError ''probabilities do not sum to 1''), rng)
      else
        let cdf = cumsum p;
            cdf = map (\<lambda>x. x / last cdf) cdf;
            (u, rng') = random_sample rng;
            idx = searchsorted_right cdf u
        in (Inr (a ! idx), rng'))"

text \<open>
  A \<^verbatim>\<open>for\<close> loop over a range whose body may raise or \<^verbatim>\<open>break\<close>: the body returns the
  state it leaves behind together with an error, or with the flag of a \<^verbatim>\<open>break\<close>.
\<close>

fun for_range :: "(nat \<Rightarrow> 's \<Rightarrow> (error + bool) \<times> 's) \<Rightarrow> nat list \<Rightarrow> 's \<Rightarrow> (error + unit) \<times> 's" where
  "for_range body [] s = (Inr (), s)"
| "for_range body (i # is) s =
     (case body i s of
        (Inl e, s') \<Rightarrow> (Inl e, s')
      | (Inr brk, s') \<Rightarrow> if brk then (Inr (), s') else for_range body is s')"

text \<open>\<^verbatim>\<open>range(size)\<close>, and the slice \<^verbatim>\<open>xs[:size]\<close>, whose negative bound counts from the end.\<close>

definition py_range :: "int \<Rightarrow> nat list" where
  "py_range n = [0..<nat n]"

definition slice_to :: "int \<Rightarrow> 'a list \<Rightarrow> 'a list" where
  "slice_to n xs = (if 0 \<le> n then take (nat n) xs else take (nat (int (length xs) + n)) xs)"

text \<open>The indices that a boolean mask selects: \<^verbatim>\<open>ground_set[rem]\<close>.\<close>

definition masked :: "bool list \<Rightarrow> nat list" where
  "masked rem = filter (\<lambda>i. rem ! i) [0..<length rem]"


section \<open>The Cholesky sampler\<close>

text \<open>
  \<^verbatim>\<open>orthogonal_projection_kernel_sampler_Chol\<close>. The state of its loop: the working copy
  \<^verbatim>\<open>A\<close> of the kernel, the diagonal vector \<^verbatim>\<open>d\<close>, the permuted \<^verbatim>\<open>ground_set\<close> and the
  random source.
\<close>

record Chol_state =
  Chol_A :: "complex list list"
  Chol_d :: "real list"
  Chol_ground_set :: "nat list"
  Chol_rng :: RandomState

text \<open>The Hermitian swap of the indices \<^verbatim>\<open>j\<close> and \<^verbatim>\<open>t\<close> of \<^verbatim>\<open>A\<close>, one definition for each
  of its five assignments.\<close>

definition bottom_swap :: "nat \<Rightarrow> nat \<Rightarrow> complex list list \<Rightarrow> complex list list" where
  \<comment> \<open>\<^verbatim>\<open>A[T1, j_t] = A[T1, t_j]\<close> with \<^verbatim>\<open>T1 = slice(t + 1, N)\<close>\<close>
  "bottom_swap j t A =
     tab2 (length A) (length A)
       (\<lambda>r c. if t < r \<and> c = j then A ! r ! t else if t < r \<and> c = t then A ! r ! j else A ! r ! c)"

definition inner_swap :: "nat \<Rightarrow> nat \<Rightarrow> complex list list \<Rightarrow> complex list list" where
  \<comment> \<open>\<^verbatim>\<open>tmp = A[J1, j].copy(); np.conj(A[t, J1], out=A[J1, j]); np.conj(tmp, out=A[t, J1])\<close>
      with \<^verbatim>\<open>J1 = slice(j + 1, t)\<close>\<close>
  "inner_swap j t A =
     (let N = length A;
          tmp = map (\<lambda>r. A ! r ! j) [j + 1..<t];
          A1 = tab2 N N (\<lambda>r c. if j < r \<and> r < t \<and> c = j then cnj (A ! t ! r) else A ! r ! c)
      in tab2 N N (\<lambda>r c. if r = t \<and> j < c \<and> c < t then cnj (tmp ! (c - (j + 1))) else A1 ! r ! c))"

definition corner_swap :: "nat \<Rightarrow> nat \<Rightarrow> complex list list \<Rightarrow> complex list list" where
  \<comment> \<open>\<^verbatim>\<open>A[t, j] = A[t, j].conj()\<close>\<close>
  "corner_swap j t A =
     tab2 (length A) (length A) (\<lambda>r c. if r = t \<and> c = j then cnj (A ! t ! j) else A ! r ! c)"

definition diagonal_swap :: "nat \<Rightarrow> nat \<Rightarrow> complex list list \<Rightarrow> complex list list" where
  \<comment> \<open>\<^verbatim>\<open>A[j_t, j_t] = A[t_j, t_j].real\<close>\<close>
  "diagonal_swap j t A =
     tab2 (length A) (length A)
       (\<lambda>r c. if r = t \<and> c = t then complex_of_real (Re (A ! j ! j))
               else if r = j \<and> c = j then complex_of_real (Re (A ! t ! t))
               else A ! r ! c)"

definition left_swap :: "nat \<Rightarrow> nat \<Rightarrow> complex list list \<Rightarrow> complex list list" where
  \<comment> \<open>\<^verbatim>\<open>A[j_t, :j] = A[t_j, :j]\<close>\<close>
  "left_swap j t A =
     tab2 (length A) (length A)
       (\<lambda>r c. if r = t \<and> c < j then A ! j ! c else if r = j \<and> c < j then A ! t ! c else A ! r ! c)"

definition hermitian_swap :: "nat \<Rightarrow> nat \<Rightarrow> complex list list \<Rightarrow> complex list list" where
  "hermitian_swap j t A =
     left_swap j t (diagonal_swap j t (corner_swap j t (inner_swap j t (bottom_swap j t A))))"

definition swap_positions :: "nat \<Rightarrow> nat \<Rightarrow> 'a list \<Rightarrow> 'a list" where
  \<comment> \<open>\<^verbatim>\<open>x[j_t] = x[t_j]\<close> on a vector\<close>
  "swap_positions j t x = x[j := x ! t, t := x ! j]"

definition set_pivot :: "nat \<Rightarrow> real list \<Rightarrow> complex list list \<Rightarrow> complex list list" where
  \<comment> \<open>\<^verbatim>\<open>A[j, j] = np.sqrt(d[j])\<close>\<close>
  "set_pivot j d A =
     tab2 (length A) (length A)
       (\<lambda>r c. if r = j \<and> c = j then complex_of_real (sqrt (d ! j)) else A ! r ! c)"

definition form_column :: "nat \<Rightarrow> complex list list \<Rightarrow> complex list list" where
  \<comment> \<open>\<^verbatim>\<open>A[J2, j] -= A[J2, :j].dot(A[j, :j].conj()); A[J2, j] /= A[j, j]\<close>
      with \<^verbatim>\<open>J2 = slice(j + 1, N)\<close>\<close>
  "form_column j A =
     (let N = length A;
          A1 = tab2 N N
                 (\<lambda>r c. if j < r \<and> c = j
                         then A ! r ! j - dot (take j (A ! r)) (map cnj (take j (A ! j)))
                         else A ! r ! c)
      in tab2 N N (\<lambda>r c. if j < r \<and> c = j then A1 ! r ! j / A1 ! j ! j else A1 ! r ! c))"

definition update_diagonal :: "bool \<Rightarrow> nat \<Rightarrow> complex list list \<Rightarrow> real list \<Rightarrow> real list" where
  \<comment> \<open>\<^verbatim>\<open>d[J2] -= A[J2, j].real ** 2 + A[J2, j].imag ** 2\<close> for a complex \<^verbatim>\<open>A\<close>,
      \<^verbatim>\<open>d[J2] -= A[J2, j] ** 2\<close> for a real one\<close>
  "update_diagonal cplx j A d =
     tab (length d)
       (\<lambda>r. if j < r
             then (if cplx then d ! r - ((Re (A ! r ! j))\<^sup>2 + (Im (A ! r ! j))\<^sup>2)
                   else d ! r - (Re (A ! r ! j))\<^sup>2)
             else d ! r)"

definition Chol_body :: "bool \<Rightarrow> int \<Rightarrow> int \<Rightarrow> nat \<Rightarrow> Chol_state \<Rightarrow> (error + bool) \<times> Chol_state" where
  "Chol_body cplx rank sz j s =
     (let N = length (Chol_A s) in
      case choice [j..<N] (map (\<lambda>x. \<bar>x\<bar> / real_of_int (rank - int j)) (drop j (Chol_d s)))
             (Chol_rng s) of
        (Inl e, rng') \<Rightarrow> (Inl e, s\<lparr>Chol_rng := rng'\<rparr>)
      | (Inr t, rng') \<Rightarrow>
          let A = hermitian_swap j t (Chol_A s);
              ground_set = swap_positions j t (Chol_ground_set s);
              d = swap_positions j t (Chol_d s);
              A = set_pivot j d A;
              s1 = \<lparr>Chol_A = A, Chol_d = d, Chol_ground_set = ground_set, Chol_rng = rng'\<rparr>
          in if int j = sz - 1 then (Inr True, s1)
             else
               let A = form_column j A;
                   d = update_diagonal cplx j A d
               in (Inr False, s1\<lparr>Chol_A := A, Chol_d := d\<rparr>))"

definition Chol_init :: "ndarray2 \<Rightarrow> RandomState \<Rightarrow> Chol_state" where
  \<comment> \<open>\<^verbatim>\<open>A = K.copy(); d = np.copy(A.diagonal().real); ground_set = np.arange(N)\<close>\<close>
  "Chol_init K rng =
     \<lparr>Chol_A = entries K, Chol_d = diagonal_real (entries K),
      Chol_ground_set = [0..<len K], Chol_rng = rng\<rparr>"

definition Chol_steps :: "ndarray2 \<Rightarrow> int \<Rightarrow> RandomState \<Rightarrow> nat list \<Rightarrow> (error + unit) \<times> Chol_state" where
  \<comment> \<open>the loop \<^verbatim>\<open>for j in range(size)\<close>, run over the given steps\<close>
  "Chol_steps K sz rng steps =
     for_range (Chol_body (iscomplexobj K) (rank_of K) sz) steps (Chol_init K rng)"

definition orthogonal_projection_kernel_sampler_Chol ::
    "ndarray2 \<Rightarrow> int option \<Rightarrow> RandomState \<Rightarrow> (error + nat list) \<times> RandomState" where
  "orthogonal_projection_kernel_sampler_Chol K size_arg rng =
     (let rank = rank_of K;
          sz = (case size_arg of None \<Rightarrow> rank | Some n \<Rightarrow> n)
      in if \<not> sz \<le> rank then (Inl AssertionError, rng)
         else
           case Chol_steps K sz rng (py_range sz) of
             (Inl e, s) \<Rightarrow> (Inl e, Chol_rng s)
           | (Inr u, s) \<Rightarrow> (Inr (slice_to sz (Chol_ground_set s)), Chol_rng s))"

section \<open>The Gram-Schmidt sampler\<close>

text \<open>
  \<^verbatim>\<open>orthogonal_projection_kernel_sampler_GS\<close>. The state of its loop: the mask \<^verbatim>\<open>rem\<close>
  of the indices not selected yet, the array \<^verbatim>\<open>sample\<close>, the residual norms \<^verbatim>\<open>norm_2\<close>,
  the coefficients \<^verbatim>\<open>c\<close> and the random source.
\<close>

record GS_state =
  GS_rem :: "bool list"
  GS_sample :: "nat list"
  GS_norm_2 :: "real list"
  GS_c :: "complex list list"
  GS_rng :: RandomState

definition new_coefficients ::
    "complex list list \<Rightarrow> bool list \<Rightarrow> real list \<Rightarrow> nat \<Rightarrow> nat \<Rightarrow> complex list list \<Rightarrow> complex list list" where
  \<comment> \<open>\<^verbatim>\<open>c[rem, it] = K[rem, j] - c[rem, :it].dot(c[j, :it]); c[rem, it] /= np.sqrt(norm_2[j])\<close>\<close>
  "new_coefficients K rem norm_2 it j c =
     (let c1 = tab2 (length c) (length (c ! 0))
                 (\<lambda>r k. if rem ! r \<and> k = it
                         then K ! r ! j - dot (take it (c ! r)) (take it (c ! j))
                         else c ! r ! k)
      in tab2 (length c) (length (c ! 0))
           (\<lambda>r k. if rem ! r \<and> k = it then c1 ! r ! it / complex_of_real (sqrt (norm_2 ! j))
                   else c1 ! r ! k))"

definition deflate :: "bool \<Rightarrow> bool list \<Rightarrow> nat \<Rightarrow> complex list list \<Rightarrow> real list \<Rightarrow> error + real list" where
  \<comment> \<open>\<^verbatim>\<open>norm_2[rem] -= c[rem, it] ** 2\<close>: with a complex \<^verbatim>\<open>c\<close> the right-hand side is
      complex, and numpy does not store it into the real array \<^verbatim>\<open>norm_2\<close>\<close>
  "deflate cplx rem it c norm_2 =
     (if cplx
      then Inl (TypeError ''Cannot cast ufunc subtract output from complex128 to float64'')
      else Inr (tab (length norm_2)
                  (\<lambda>r. if rem ! r then norm_2 ! r - (Re (c ! r ! it))\<^sup>2 else norm_2 ! r)))"

definition GS_body ::
    "complex list list \<Rightarrow> bool \<Rightarrow> int \<Rightarrow> int \<Rightarrow> nat \<Rightarrow> GS_state \<Rightarrow> (error + bool) \<times> GS_state" where
  "GS_body K cplx rank sz it s =
     (case choice (masked (GS_rem s))
             (map (\<lambda>r. \<bar>GS_norm_2 s ! r\<bar> / real_of_int (rank - int it)) (masked (GS_rem s)))
             (GS_rng s) of
        (Inl e, rng') \<Rightarrow> (Inl e, s\<lparr>GS_rng := rng'\<rparr>)
      | (Inr j, rng') \<Rightarrow>
          let s1 = s\<lparr>GS_sample := (GS_sample s)[it := j], GS_rem := (GS_rem s)[j := False],
                     GS_rng := rng'\<rparr>
          in if int it = sz - 1 then (Inr True, s1)
             else
               let c = new_coefficients K (GS_rem s1) (GS_norm_2 s1) it j (GS_c s1);
                   s2 = s1\<lparr>GS_c := c\<rparr>
               in case deflate cplx (GS_rem s2) it c (GS_norm_2 s2) of
                    Inl e \<Rightarrow> (Inl e, s2)
                  | Inr norm_2 \<Rightarrow> (Inr False, s2\<lparr>GS_norm_2 := norm_2\<rparr>))"

definition GS_init :: "ndarray2 \<Rightarrow> int \<Rightarrow> RandomState \<Rightarrow> GS_state" where
  \<comment> \<open>\<^verbatim>\<open>rem\<close> all true, \<^verbatim>\<open>sample = np.zeros(size)\<close>, \<^verbatim>\<open>norm_2 = np.copy(K.diagonal().real)\<close>,
      \<^verbatim>\<open>c = np.zeros_like(K, shape=(N, size))\<close>\<close>
  "GS_init K sz rng =
     \<lparr>GS_rem = replicate (len K) True,
      GS_sample = replicate (nat sz) 0,
      GS_norm_2 = diagonal_real (entries K),
      GS_c = replicate (len K) (replicate (nat sz) 0),
      GS_rng = rng\<rparr>"

definition GS_steps :: "ndarray2 \<Rightarrow> int \<Rightarrow> RandomState \<Rightarrow> nat list \<Rightarrow> (error + unit) \<times> GS_state" where
  \<comment> \<open>the loop \<^verbatim>\<open>for it in range(size)\<close>, run over the given steps\<close>
  "GS_steps K sz rng steps =
     for_range (GS_body (entries K) (iscomplexobj K) (rank_of K) sz) steps (GS_init K sz rng)"

definition orthogonal_projection_kernel_sampler_GS ::
    "ndarray2 \<Rightarrow> int option \<Rightarrow> RandomState \<Rightarrow> (error + nat list) \<times> RandomState" where
  "orthogonal_projection_kernel_sampler_GS K size_arg rng =
     (let rank = rank_of K;
          sz = (case size_arg of None \<Rightarrow> rank | Some n \<Rightarrow> n)
      in if \<not> sz \<le> rank then (Inl AssertionError, rng)
         else if sz < 0 then (Inl (ValueError ''negative dimensions are not allowed''), rng)
         else
           case GS_steps K sz rng (py_range sz) of
             (Inl e, s) \<Rightarrow> (Inl e, GS_rng s)
           | (Inr u, s) \<Rightarrow> (Inr (GS_sample s), GS_rng s))"

section \<open>The Schur-complement sampler\<close>

text \<open>
  \<^verbatim>\<open>projection_kernel_sampler_Schur\<close>. The state of its loop: the mask \<^verbatim>\<open>rem\<close>, the
  array \<^verbatim>\<open>sample\<close>, the Schur complements \<^verbatim>\<open>schur\<close>, the inverse block \<^verbatim>\<open>K1\<close> and the
  random source.
\<close>

record Schur_state =
  Schur_rem :: "bool list"
  Schur_sample :: "nat list"
  Schur_schur :: "real list"
  Schur_K1 :: "complex list list"
  Schur_rng :: RandomState

definition K1_first :: "complex list list \<Rightarrow> nat \<Rightarrow> complex list list \<Rightarrow> complex list list" where
  \<comment> \<open>\<^verbatim>\<open>K1[0, 0] = 1.0 / K[j, j]\<close>\<close>
  "K1_first K j K1 =
     tab2 (length K1) (length K1) (\<lambda>a b. if a = 0 \<and> b = 0 then 1 / K ! j ! j else K1 ! a ! b)"

definition K1_second :: "complex list list \<Rightarrow> nat \<Rightarrow> nat \<Rightarrow> complex list list \<Rightarrow> complex list list" where
  \<comment> \<open>\<^verbatim>\<open>K1[:2, :2] = np.array([[K[j, j], -K[j, i]], [-K[j, i], K[i, i]]])\<close> and then
      \<^verbatim>\<open>K1[:2, :2] /= K[i, i] * K[j, j] - K[j, i] ** 2\<close>\<close>
  "K1_second K i j K1 =
     (let block = [[K ! j ! j, - K ! j ! i], [- K ! j ! i, K ! i ! i]];
          K1a = tab2 (length K1) (length K1)
                  (\<lambda>a b. if a < 2 \<and> b < 2 then block ! a ! b else K1 ! a ! b)
      in tab2 (length K1) (length K1)
           (\<lambda>a b. if a < 2 \<and> b < 2
                   then K1a ! a ! b / (K ! i ! i * K ! j ! j - (K ! j ! i)\<^sup>2)
                   else K1a ! a ! b))"

definition K1_woodbury ::
    "complex list list \<Rightarrow> nat list \<Rightarrow> nat \<Rightarrow> nat \<Rightarrow> complex list list \<Rightarrow> complex list list" where
  \<comment> \<open>the branch \<^verbatim>\<open>elif it < size - 1\<close>, with \<^verbatim>\<open>Y = slice(0, it)\<close>\<close>
  "K1_woodbury K sample it j K1 =
     (let K1_YY = map (take it) (take it K1);
          K_Yj = map (\<lambda>y. K ! y ! j) (take it sample);
          K_jY = map (\<lambda>y. K ! j ! y) (take it sample);
          tmp1 = map (\<lambda>row. dot row K_Yj) K1_YY;
          schur_j = K ! j ! j - dot K_jY tmp1;
          tmp2 = tab it (\<lambda>b. dot K_jY (map (\<lambda>row. row ! b) K1_YY) / schur_j)
      in tab2 (length K1) (length K1)
           (\<lambda>a b. if a < it \<and> b < it then K1 ! a ! b + tmp1 ! a * tmp2 ! b
                   else if a < it \<and> b = it then - tmp1 ! a / schur_j
                   else if a = it \<and> b < it then - tmp2 ! b
                   else if a = it \<and> b = it then 1 / schur_j
                   else K1 ! a ! b))"

text \<open>Modelled from the spec: \<^verbatim>\<open>inner1d\<close> is imported from \<^verbatim>\<open>dppy.utils\<close>, which does not
  define it. The spec has \<^verbatim>\<open>schur[r] = K[r,r] - K[r,Y] K1 K[Y,r]\<close>, so
  \<^verbatim>\<open>inner1d(X, Z, axis=1)\<close> is the inner product of each row of \<^verbatim>\<open>X\<close> with the same
  row of \<^verbatim>\<open>Z\<close>.\<close>

definition inner1d :: "complex list list \<Rightarrow> complex list list \<Rightarrow> complex list" where
  "inner1d X Z = map2 dot X Z"

definition update_schur ::
    "complex list list \<Rightarrow> bool list \<Rightarrow> nat list \<Rightarrow> nat \<Rightarrow> complex list list \<Rightarrow> real list \<Rightarrow> real list" where
  \<comment> \<open>\<^verbatim>\<open>K_iY = K[np.ix_(rem, sample[Y])]; K_Yi = K[np.ix_(sample[Y], rem)]\<close> and
      \<^verbatim>\<open>schur[rem] = K[rem, rem] - inner1d(K_iY.dot(K1[Y, Y]), K_Yi.T, axis=1)\<close>
      with \<^verbatim>\<open>Y = slice(0, it + 1)\<close>; the complex values are stored into the real array
      \<^verbatim>\<open>schur\<close> by their real parts\<close>
  "update_schur K rem sample it K1 schur =
     (let Y = take (it + 1) sample;
          K1_YY = map (take (it + 1)) (take (it + 1) K1);
          K_iY = map (\<lambda>r. map (\<lambda>y. K ! r ! y) Y) (masked rem);
          K_YiT = map (\<lambda>r. map (\<lambda>y. K ! y ! r) Y) (masked rem);
          K_iY_K1 = map (\<lambda>row. tab (it + 1) (\<lambda>b. dot row (map (\<lambda>k1row. k1row ! b) K1_YY))) K_iY;
          new = map2 (\<lambda>r x. K ! r ! r - x) (masked rem) (inner1d K_iY_K1 K_YiT)
      in tab (length schur)
           (\<lambda>r. if rem ! r then Re (new ! (length (filter (\<lambda>i. rem ! i) [0..<r]))) else schur ! r))"

definition Schur_body ::
    "complex list list \<Rightarrow> int \<Rightarrow> int \<Rightarrow> nat \<Rightarrow> Schur_state \<Rightarrow> (error + bool) \<times> Schur_state" where
  "Schur_body K rank sz it s =
     (case choice (masked (Schur_rem s))
             (map (\<lambda>r. \<bar>Schur_schur s ! r\<bar> / real_of_int (rank - int it)) (masked (Schur_rem s)))
             (Schur_rng s) of
        (Inl e, rng') \<Rightarrow> (Inl e, s\<lparr>Schur_rng := rng'\<rparr>)
      | (Inr j, rng') \<Rightarrow>
          let s1 = s\<lparr>Schur_sample := (Schur_sample s)[it := j],
                     Schur_rem := (Schur_rem s)[j := False], Schur_rng := rng'\<rparr>;
              update = (\<lambda>K1. (Inr False,
                         s1\<lparr>Schur_K1 := K1,
                            Schur_schur := update_schur K (Schur_rem s1) (Schur_sample s1) it K1
                                             (Schur_schur s1)\<rparr>))
          in if it = 0 then update (K1_first K j (Schur_K1 s1))
             else if it = 1 then update (K1_second K (Schur_sample s1 ! 0) j (Schur_K1 s1))
             else if int it < sz - 1 then update (K1_woodbury K (Schur_sample s1) it j (Schur_K1 s1))
             else (Inr True, s1))"

definition Schur_init :: "ndarray2 \<Rightarrow> int \<Rightarrow> RandomState \<Rightarrow> Schur_state" where
  \<comment> \<open>\<^verbatim>\<open>rem\<close> all true, \<^verbatim>\<open>sample = np.zeros(size)\<close>, \<^verbatim>\<open>schur = np.copy(K.diagonal().real)\<close>,
      \<^verbatim>\<open>K1 = np.zeros_like(K, shape=(size, size))\<close>\<close>
  "Schur_init K sz rng =
     \<lparr>Schur_rem = replicate (len K) True,
      Schur_sample = replicate (nat sz) 0,
      Schur_schur = diagonal_real (entries K),
      Schur_K1 = replicate (nat sz) (replicate (nat sz) 0),
      Schur_rng = rng\<rparr>"

definition Schur_steps :: "ndarray2 \<Rightarrow> int \<Rightarrow> RandomState \<Rightarrow> nat list \<Rightarrow> (error + unit) \<times> Schur_state" where
  \<comment> \<open>the loop \<^verbatim>\<open>for it in range(size)\<close>, run over the given steps\<close>
  "Schur_steps K sz rng steps =
     for_range (Schur_body (entries K) (rank_of K) sz) steps (Schur_init K sz rng)"

definition projection_kernel_sampler_Schur ::
    "ndarray2 \<Rightarrow> int option \<Rightarrow> RandomState \<Rightarrow> (error + nat list) \<times> RandomState" where
  "projection_kernel_sampler_Schur K size_arg rng =
     (let rank = rank_of K;
          sz = (case size_arg of None \<Rightarrow> rank | Some n \<Rightarrow> n)
      in if \<not> sz \<le> rank then (Inl AssertionError, rng)
         else if sz < 0 then (Inl (ValueError ''negative dimensions are not allowed''), rng)
         else
           case Schur_steps K sz rng (py_range sz) of
             (Inl e, s) \<Rightarrow> (Inl e, Schur_rng s)
           | (Inr u, s) \<Rightarrow> (Inr (Schur_sample s), Schur_rng s))"

section \<open>Dispatch\<close>

text \<open>
  The three sampling routines as values, the two lookup tables of
  \<^verbatim>\<open>select_generic_projection_kernel_sampler\<close> and
  \<^verbatim>\<open>select_orthogonal_projection_kernel_sampler\<close> (a dictionary is a map, and
  \<^verbatim>\<open>samplers.get(mode, default)\<close> a lookup with a fallback), and
  \<^verbatim>\<open>projection_kernel_sampler\<close>. The mode is \<^verbatim>\<open>params.get("mode")\<close>: a string, or
  \<^verbatim>\<open>None\<close> when the caller gave none.
\<close>

datatype sampler = GS | Chol | Schur

definition select_generic_projection_kernel_sampler :: "string option \<Rightarrow> sampler" where
  "select_generic_projection_kernel_sampler mode =
     (let samplers = [''Schur'' \<mapsto> Schur];
          default = the (samplers ''Schur'')
      in case mode of
           None \<Rightarrow> default
         | Some m \<Rightarrow> (case samplers m of None \<Rightarrow> default | Some f \<Rightarrow> f))"

definition select_orthogonal_projection_kernel_sampler :: "string option \<Rightarrow> sampler" where
  "select_orthogonal_projection_kernel_sampler mode =
     (let samplers = [''GS'' \<mapsto> GS, ''Chol'' \<mapsto> Chol, ''Schur'' \<mapsto> Schur];
          default = the (samplers ''GS'')
      in case mode of
           None \<Rightarrow> default
         | Some m \<Rightarrow> (case samplers m of None \<Rightarrow> default | Some f \<Rightarrow> f))"

fun call_sampler ::
    "sampler \<Rightarrow> ndarray2 \<Rightarrow> int option \<Rightarrow> RandomState \<Rightarrow> (error + nat list) \<times> RandomState" where
  "call_sampler GS = orthogonal_projection_kernel_sampler_GS"
| "call_sampler Chol = orthogonal_projection_kernel_sampler_Chol"
| "call_sampler Schur = projection_kernel_sampler_Schur"

text \<open>
  The DPP object is an external collaborator: the model keeps the attributes that
  \<^verbatim>\<open>projection_kernel_sampler\<close> reads, with \<^verbatim>\<open>dpp_L\<close> and \<^verbatim>\<open>dpp_K\<close> the matrices that
  \<^verbatim>\<open>dpp.L\<close> and \<^verbatim>\<open>dpp.K\<close> hold once \<^verbatim>\<open>compute_L()\<close> and \<^verbatim>\<open>compute_K()\<close> have run.
  The keyword arguments are the two that are read. What the function does besides
  returning is recorded as a list of events, in order.
\<close>

record dpp =
  projection :: bool
  kernel_type :: string
  hermitian :: bool
  dpp_L :: ndarray2
  dpp_K :: ndarray2

record params =
  size_param :: "int option"
  mode_param :: "string option"

datatype event = Compute_L | Compute_K | Selected sampler | Called sampler

definition py_not :: "int option \<Rightarrow> bool" where
  \<comment> \<open>\<^verbatim>\<open>not size\<close>: \<^verbatim>\<open>None\<close> and \<^verbatim>\<open>0\<close> are the values that count as false\<close>
  "py_not v = (case v of None \<Rightarrow> True | Some n \<Rightarrow> n = 0)"

definition size_message :: string where
  "size_message =
     ''size !> 0. projection_kernel_sampler only applies to k-DPP(L) with orthogonal projection L kernel.''"

definition projection_kernel_sampler ::
    "dpp \<Rightarrow> RandomState \<Rightarrow> params \<Rightarrow> event list \<times> (error + nat list) \<times> RandomState" where
  "projection_kernel_sampler dpp random_state params =
     (if \<not> projection dpp then ([], Inl AssertionError, random_state)
      else
        let sz = size_param params in
        if kernel_type dpp = ''likelihood'' \<and> py_not sz
        then ([], Inl (ValueError size_message), random_state)
        else
          let (ev, kernel) = (if kernel_type dpp = ''likelihood'' then ([Compute_L], dpp_L dpp)
                              else ([Compute_K], dpp_K dpp));
              mode = mode_param params;
              sampler = (if hermitian dpp then select_orthogonal_projection_kernel_sampler mode
                         else select_generic_projection_kernel_sampler mode)
          in (ev @ [Selected sampler, Called sampler], call_sampler sampler kernel sz random_state))"


section \<open>Notions the claims are stated with\<close>

text \<open>
  Matrix product, identity, the submatrix \<^verbatim>\<open>K[np.ix_(Y, Y)]\<close> of a list of indices, the
  leading block \<^verbatim>\<open>M[:n, :n]\<close>, and what it is to be an inverse, a projection, Hermitian.
\<close>

definition mat_mul :: "complex list list \<Rightarrow> complex list list \<Rightarrow> complex list list" where
  "mat_mul X Z = map (\<lambda>row. tab (length (Z ! 0)) (\<lambda>b. dot row (map (\<lambda>zrow. zrow ! b) Z))) X"

definition identity :: "nat \<Rightarrow> complex list list" where
  "identity n = tab2 n n (\<lambda>a b. if a = b then 1 else 0)"

definition submatrix :: "complex list list \<Rightarrow> nat list \<Rightarrow> complex list list" where
  "submatrix K Y = map (\<lambda>a. map (\<lambda>b. K ! a ! b) Y) Y"

definition block :: "nat \<Rightarrow> complex list list \<Rightarrow> complex list list" where
  "block n M = map (take n) (take n M)"

definition inverse_of :: "complex list list \<Rightarrow> complex list list \<Rightarrow> bool" where
  "inverse_of B G = (mat_mul B G = identity (length G) \<and> mat_mul G B = identity (length G))"

definition is_projection :: "complex list list \<Rightarrow> bool" where
  "is_projection K = (mat_mul K K = K)"

definition is_square :: "'a list list \<Rightarrow> bool" where
  "is_square A = (\<forall>r \<in> set [0..<length A]. length (A ! r) = length A)"

definition conj_transpose :: "complex list list \<Rightarrow> complex list list" where
  "conj_transpose K = tab2 (length K) (length K) (\<lambda>r c. cnj (K ! c ! r))"

definition is_hermitian :: "complex list list \<Rightarrow> bool" where
  "is_hermitian K = (conj_transpose K = K)"

text \<open>
  The permutation that exchanges \<open>j\<close> and \<open>t\<close>, the matrix \<open>P A P\<^sup>T\<close> for that permutation
  \<open>P\<close>, and the Hermitian matrix that a lower triangle (with its diagonal) stands for.
\<close>

definition exchange :: "nat \<Rightarrow> nat \<Rightarrow> nat \<Rightarrow> nat" where
  "exchange j t i = (if i = j then t else if i = t then j else i)"

definition permuted :: "nat \<Rightarrow> nat \<Rightarrow> complex list list \<Rightarrow> complex list list" where
  "permuted j t A = tab2 (length A) (length A) (\<lambda>r c. A ! exchange j t r ! exchange j t c)"

definition lower_completion :: "complex list list \<Rightarrow> complex list list" where
  "lower_completion B =
     tab2 (length B) (length B) (\<lambda>r c. if c \<le> r then B ! r ! c else cnj (B ! c ! r))"

text \<open>A Hermitian matrix with pairwise different entries below its diagonal.\<close>

definition H3 :: "complex list list" where
  "H3 = [[1, 2 + \<i>, 3 - \<i>], [2 - \<i>, 4, 5 + 2 * \<i>], [3 + \<i>, 5 - 2 * \<i>, 6]]"

text \<open>
  Three concrete projection kernels and a random source whose draws are all 0 (it selects
  the first candidate of positive weight). The first two are the oblique projections
  \<open>I - u v\<^sup>T\<close> with \<open>v\<^sup>T u = 1\<close>: \<open>u = (1, 1, 1)\<close>, \<open>v = (1/2, 1/4, 1/4)\<close> and
  \<open>u = (1, 2, 1, 1)\<close>, \<open>v = (1/4, 1/8, 1/4, 1/4)\<close>; their principal minors are not negative.
  The third is the Hermitian projection \<open>I - w w\<^sup>*\<close> with \<open>w = (1, -\<i>, 0) / sqrt 2\<close>.
\<close>

definition K_oblique3 :: ndarray2 where
  "K_oblique3 = Float64 [[1/2, -1/4, -1/4], [-1/2, 3/4, -1/4], [-1/2, -1/4, 3/4]]"

definition K_oblique4 :: ndarray2 where
  "K_oblique4 = Float64 [[3/4, -1/8, -1/4, -1/4], [-1/2, 3/4, -1/2, -1/2],
                         [-1/4, -1/8, 3/4, -1/4], [-1/4, -1/8, -1/4, 3/4]]"

definition K_complex3 :: ndarray2 where
  "K_complex3 = Complex128 [[1/2, \<i>/2, 0], [-\<i>/2, 1/2, 0], [0, 0, 1]]"

definition zero_draws :: RandomState where
  "zero_draws = \<lparr>draws = (\<lambda>n. 0), pos = 0\<rparr>"

section \<open>Dispatch and the size checks\<close>

text \<open>
  Claim C7. When the kernel type of the DPP is the likelihood representation and no size is
  given, \<^verbatim>\<open>projection_kernel_sampler\<close> raises the \<^verbatim>\<open>ValueError\<close> of the missing size, and
  nothing has happened before: no kernel computed, no sampler selected or called, no draw
  taken from the random source. The DPP is a projection DPP, as the function asserts on
  entry.
\<close>

theorem likelihood_without_size_raises:
  assumes "projection dpp" and "kernel_type dpp = ''likelihood''" and "size_param params = None"
  shows "projection_kernel_sampler dpp random_state params =
           ([], Inl (ValueError size_message), random_state)"
  using assms by (simp add: projection_kernel_sampler_def py_not_def)

theorem likelihood_without_size_raises_witness:
  "projection \<lparr>projection = True, kernel_type = ''likelihood'', hermitian = True,
               dpp_L = Float64 [[1]], dpp_K = Float64 [[1]]\<rparr> \<and>
   kernel_type \<lparr>projection = True, kernel_type = ''likelihood'', hermitian = True,
               dpp_L = Float64 [[1]], dpp_K = Float64 [[1]]\<rparr> = ''likelihood'' \<and>
   size_param \<lparr>size_param = None, mode_param = Some ''Chol''\<rparr> = None \<and>
   projection_kernel_sampler
     \<lparr>projection = True, kernel_type = ''likelihood'', hermitian = True,
      dpp_L = Float64 [[1]], dpp_K = Float64 [[1]]\<rparr>
     \<lparr>draws = (\<lambda>n. 0), pos = 0\<rparr>
     \<lparr>size_param = None, mode_param = Some ''Chol''\<rparr> =
   ([], Inl (ValueError size_message), \<lparr>draws = (\<lambda>n. 0), pos = 0\<rparr>)"
  using likelihood_without_size_raises
    [of "\<lparr>projection = True, kernel_type = ''likelihood'', hermitian = True,
          dpp_L = Float64 [[1]], dpp_K = Float64 [[1]]\<rparr>"
        "\<lparr>size_param = None, mode_param = Some ''Chol''\<rparr>"
        "\<lparr>draws = (\<lambda>n. 0), pos = 0\<rparr>"]
  by simp

text \<open>
  Claim C10. With a likelihood kernel, the size 0 is rejected like a missing size: the call
  with \<^verbatim>\<open>size=0\<close> ends as the call without a size does, in the same \<^verbatim>\<open>ValueError\<close>, no
  sampler selected or called.
\<close>

theorem likelihood_size_zero_raises:
  assumes "projection dpp" and "kernel_type dpp = ''likelihood''" and "size_param params = Some 0"
  shows "projection_kernel_sampler dpp random_state params =
           projection_kernel_sampler dpp random_state (params\<lparr>size_param := None\<rparr>)
         \<and> projection_kernel_sampler dpp random_state params =
           ([], Inl (ValueError size_message), random_state)"
  using assms by (simp add: projection_kernel_sampler_def py_not_def)

theorem likelihood_size_zero_raises_witness:
  "projection \<lparr>projection = True, kernel_type = ''likelihood'', hermitian = False,
               dpp_L = Float64 [[1]], dpp_K = Float64 [[1]]\<rparr> \<and>
   kernel_type \<lparr>projection = True, kernel_type = ''likelihood'', hermitian = False,
               dpp_L = Float64 [[1]], dpp_K = Float64 [[1]]\<rparr> = ''likelihood'' \<and>
   size_param \<lparr>size_param = Some 0, mode_param = None\<rparr> = Some 0 \<and>
   projection_kernel_sampler
     \<lparr>projection = True, kernel_type = ''likelihood'', hermitian = False,
      dpp_L = Float64 [[1]], dpp_K = Float64 [[1]]\<rparr>
     \<lparr>draws = (\<lambda>n. 0), pos = 0\<rparr>
     \<lparr>size_param = Some 0, mode_param = None\<rparr> =
   ([], Inl (ValueError size_message), \<lparr>draws = (\<lambda>n. 0), pos = 0\<rparr>)"
  using likelihood_size_zero_raises
    [of "\<lparr>projection = True, kernel_type = ''likelihood'', hermitian = False,
          dpp_L = Float64 [[1]], dpp_K = Float64 [[1]]\<rparr>"
        "\<lparr>size_param = Some 0, mode_param = None\<rparr>"
        "\<lparr>draws = (\<lambda>n. 0), pos = 0\<rparr>", THEN conjunct2]
  by simp

text \<open>
  Claim C8. Once \<^verbatim>\<open>projection_kernel_sampler\<close> is past its entry checks (a projection
  DPP, and a size when the kernel type is the likelihood one), what it selects and calls
  depends on \<^verbatim>\<open>dpp.hermitian\<close> and the mode. For a Hermitian kernel it is the sampler named
  by the mode when the mode is "GS", "Chol" or "Schur", and the GS sampler for every other
  mode (also for no mode); for a kernel that is not Hermitian it is the Schur sampler
  whatever the mode, never the GS or the Chol sampler. The selection raises for no mode: the
  selected sampler is called, on the kernel that was computed, with the size and the random
  source as given, and its result is the result. The two lookups by themselves are total
  and return these samplers.
\<close>

theorem dispatch_by_hermitian_and_mode:
  assumes "projection dpp"
    and "kernel_type dpp = ''likelihood'' \<longrightarrow> \<not> py_not (size_param params)"
    and "mode = mode_param params"
    and "ev = (if kernel_type dpp = ''likelihood'' then [Compute_L] else [Compute_K])"
    and "K = (if kernel_type dpp = ''likelihood'' then dpp_L dpp else dpp_K dpp)"
  shows "(hermitian dpp \<longrightarrow>
            projection_kernel_sampler dpp random_state params =
              (if mode = Some ''GS''
               then (ev @ [Selected GS, Called GS],
                     orthogonal_projection_kernel_sampler_GS K (size_param params) random_state)
               else if mode = Some ''Chol''
               then (ev @ [Selected Chol, Called Chol],
                     orthogonal_projection_kernel_sampler_Chol K (size_param params) random_state)
               else if mode = Some ''Schur''
               then (ev @ [Selected Schur, Called Schur],
                     projection_kernel_sampler_Schur K (size_param params) random_state)
               else (ev @ [Selected GS, Called GS],
                     orthogonal_projection_kernel_sampler_GS K (size_param params) random_state)))
       \<and> (\<not> hermitian dpp \<longrightarrow>
            projection_kernel_sampler dpp random_state params =
              (ev @ [Selected Schur, Called Schur],
               projection_kernel_sampler_Schur K (size_param params) random_state))
       \<and> select_orthogonal_projection_kernel_sampler mode =
            (if mode = Some ''GS'' then GS
             else if mode = Some ''Chol'' then Chol
             else if mode = Some ''Schur'' then Schur
             else GS)
       \<and> select_generic_projection_kernel_sampler mode = Schur"
proof -
  have orth: "select_orthogonal_projection_kernel_sampler mode =
            (if mode = Some ''GS'' then GS
             else if mode = Some ''Chol'' then Chol
             else if mode = Some ''Schur'' then Schur
             else GS)"
    by (simp add: select_orthogonal_projection_kernel_sampler_def split: option.splits)
  have gen: "select_generic_projection_kernel_sampler mode = Schur"
    by (simp add: select_generic_projection_kernel_sampler_def split: option.splits)
  have run: "projection_kernel_sampler dpp random_state params =
      (ev @ [Selected (if hermitian dpp then select_orthogonal_projection_kernel_sampler mode
                       else select_generic_projection_kernel_sampler mode),
             Called (if hermitian dpp then select_orthogonal_projection_kernel_sampler mode
                     else select_generic_projection_kernel_sampler mode)],
       call_sampler (if hermitian dpp then select_orthogonal_projection_kernel_sampler mode
                     else select_generic_projection_kernel_sampler mode)
         K (size_param params) random_state)"
    using assms by (auto simp add: projection_kernel_sampler_def Let_def)
  show ?thesis
    unfolding run orth gen by simp
qed

theorem dispatch_by_hermitian_and_mode_witness:
  "projection \<lparr>projection = True, kernel_type = ''correlation'', hermitian = True,
               dpp_L = Float64 [[0]], dpp_K = Float64 [[1]]\<rparr>
   \<and> projection_kernel_sampler
       \<lparr>projection = True, kernel_type = ''correlation'', hermitian = True,
        dpp_L = Float64 [[0]], dpp_K = Float64 [[1]]\<rparr>
       zero_draws \<lparr>size_param = None, mode_param = Some ''Cholesky''\<rparr>
     = ([Compute_K, Selected GS, Called GS],
        orthogonal_projection_kernel_sampler_GS (Float64 [[1]]) None zero_draws)
   \<and> projection_kernel_sampler
       \<lparr>projection = True, kernel_type = ''likelihood'', hermitian = False,
        dpp_L = Float64 [[0]], dpp_K = Float64 [[1]]\<rparr>
       zero_draws \<lparr>size_param = Some 1, mode_param = Some ''Chol''\<rparr>
     = ([Compute_L, Selected Schur, Called Schur],
        projection_kernel_sampler_Schur (Float64 [[0]]) (Some 1) zero_draws)"
  using dispatch_by_hermitian_and_mode
    [of "\<lparr>projection = True, kernel_type = ''correlation'', hermitian = True,
          dpp_L = Float64 [[0]], dpp_K = Float64 [[1]]\<rparr>"
        "\<lparr>size_param = None, mode_param = Some ''Cholesky''\<rparr>"
        "Some ''Cholesky''" "[Compute_K]" "Float64 [[1]]" zero_draws]
    dispatch_by_hermitian_and_mode
    [of "\<lparr>projection = True, kernel_type = ''likelihood'', hermitian = False,
          dpp_L = Float64 [[0]], dpp_K = Float64 [[1]]\<rparr>"
        "\<lparr>size_param = Some 1, mode_param = Some ''Chol''\<rparr>"
        "Some ''Chol''" "[Compute_L]" "Float64 [[0]]" zero_draws]
  by (simp add: py_not_def)

text \<open>
  Claim C6. A requested size above the rank \<^verbatim>\<open>round(trace(K))\<close> makes each of the three
  samplers fail on its assertion. The random source comes back as it went in, so no draw
  was consumed; the failure comes before the copy \<^verbatim>\<open>A\<close> of the kernel and the other
  working arrays exist, and no sampler ever writes to \<^verbatim>\<open>K\<close>.
\<close>

theorem oversize_fails_before_any_draw:
  assumes "rank_of K < n"
  shows "orthogonal_projection_kernel_sampler_Chol K (Some n) rng = (Inl AssertionError, rng) \<and>
         orthogonal_projection_kernel_sampler_GS K (Some n) rng = (Inl AssertionError, rng) \<and>
         projection_kernel_sampler_Schur K (Some n) rng = (Inl AssertionError, rng)"
  using assms
  by (simp add: orthogonal_projection_kernel_sampler_Chol_def
      orthogonal_projection_kernel_sampler_GS_def projection_kernel_sampler_Schur_def)

theorem oversize_fails_before_any_draw_witness:
  "rank_of (Float64 [[1, 0], [0, 0]]) < 2 \<and>
   orthogonal_projection_kernel_sampler_Chol (Float64 [[1, 0], [0, 0]]) (Some 2)
     \<lparr>draws = (\<lambda>n. 0), pos = 0\<rparr> = (Inl AssertionError, \<lparr>draws = (\<lambda>n. 0), pos = 0\<rparr>) \<and>
   orthogonal_projection_kernel_sampler_GS (Float64 [[1, 0], [0, 0]]) (Some 2)
     \<lparr>draws = (\<lambda>n. 0), pos = 0\<rparr> = (Inl AssertionError, \<lparr>draws = (\<lambda>n. 0), pos = 0\<rparr>) \<and>
   projection_kernel_sampler_Schur (Float64 [[1, 0], [0, 0]]) (Some 2)
     \<lparr>draws = (\<lambda>n. 0), pos = 0\<rparr> = (Inl AssertionError, \<lparr>draws = (\<lambda>n. 0), pos = 0\<rparr>)"
proof -
  have r: "rank_of (Float64 [[1, 0], [0, 0]]) < 2"
    by (simp add: rank_of_def trace_def len_def tab_def rint_def)
  show ?thesis
    using r oversize_fails_before_any_draw [OF r, of "\<lparr>draws = (\<lambda>n. 0), pos = 0\<rparr>"] by simp
qed


section \<open>The rank-one scenario\<close>

lemma upt_3: "[0..<3] = [0, Suc 0, Suc (Suc 0)]"
  by (simp add: upt_rec)

lemma rank_of_e1: "rank_of (Float64 [[1, 0, 0], [0, 0, 0], [0, 0, 0]]) = 1"
  by (simp add: rank_of_def trace_def len_def tab_def rint_def upt_3)

lemma choice_first_of_three:
  assumes "draws rng (pos rng) < 1"
  shows "choice [0, Suc 0, Suc (Suc 0)] [1, 0, 0] rng = (Inr 0, rng\<lparr>pos := Suc (pos rng)\<rparr>)"
  using assms
  by (simp add: choice_def atol_def cumsum_def tab_def upt_3 random_sample_def
      searchsorted_right_def)

text \<open>
  Claim C9. For the 3 by 3 kernel of the projection onto the first basis vector and no size
  argument, each of the three samplers returns the sample [0], whatever the random source
  draws; it takes one draw. The selection weights are [1, 0, 0], and a draw below 1 falls
  in the first cell of their cumulative sums.
\<close>

theorem rank_one_kernel_sample:
  assumes "valid_rng rng"
  shows "orthogonal_projection_kernel_sampler_Chol
           (Float64 [[1, 0, 0], [0, 0, 0], [0, 0, 0]]) None rng
           = (Inr [0], rng\<lparr>pos := Suc (pos rng)\<rparr>) \<and>
         orthogonal_projection_kernel_sampler_GS
           (Float64 [[1, 0, 0], [0, 0, 0], [0, 0, 0]]) None rng
           = (Inr [0], rng\<lparr>pos := Suc (pos rng)\<rparr>) \<and>
         projection_kernel_sampler_Schur
           (Float64 [[1, 0, 0], [0, 0, 0], [0, 0, 0]]) None rng
           = (Inr [0], rng\<lparr>pos := Suc (pos rng)\<rparr>)"
proof -
  have u: "draws rng (pos rng) < 1"
    using assms by (simp add: valid_rng_def)
  have chol: "orthogonal_projection_kernel_sampler_Chol
           (Float64 [[1, 0, 0], [0, 0, 0], [0, 0, 0]]) None rng
           = (Inr [0], rng\<lparr>pos := Suc (pos rng)\<rparr>)"
    by (simp add: orthogonal_projection_kernel_sampler_Chol_def Chol_steps_def Chol_init_def
        rank_of_e1 py_range_def len_def Chol_body_def upt_3 diagonal_real_def tab_def choice_first_of_three [OF u]
        swap_positions_def slice_to_def Let_def)
  have gs: "orthogonal_projection_kernel_sampler_GS
           (Float64 [[1, 0, 0], [0, 0, 0], [0, 0, 0]]) None rng
           = (Inr [0], rng\<lparr>pos := Suc (pos rng)\<rparr>)"
    by (simp add: orthogonal_projection_kernel_sampler_GS_def GS_steps_def GS_init_def
        rank_of_e1 py_range_def len_def GS_body_def masked_def upt_3 diagonal_real_def tab_def
        choice_first_of_three [OF u])
  have schur: "projection_kernel_sampler_Schur
           (Float64 [[1, 0, 0], [0, 0, 0], [0, 0, 0]]) None rng
           = (Inr [0], rng\<lparr>pos := Suc (pos rng)\<rparr>)"
    by (simp add: projection_kernel_sampler_Schur_def Schur_steps_def Schur_init_def
        rank_of_e1 py_range_def len_def Schur_body_def masked_def upt_3 diagonal_real_def tab_def
        choice_first_of_three [OF u])
  show ?thesis using chol gs schur by simp
qed

theorem rank_one_kernel_sample_witness:
  "valid_rng \<lparr>draws = (\<lambda>n. 1 / 2), pos = 0\<rparr> \<and>
   orthogonal_projection_kernel_sampler_Chol
     (Float64 [[1, 0, 0], [0, 0, 0], [0, 0, 0]]) None \<lparr>draws = (\<lambda>n. 1 / 2), pos = 0\<rparr>
     = (Inr [0], \<lparr>draws = (\<lambda>n. 1 / 2), pos = 1\<rparr>) \<and>
   orthogonal_projection_kernel_sampler_GS
     (Float64 [[1, 0, 0], [0, 0, 0], [0, 0, 0]]) None \<lparr>draws = (\<lambda>n. 1 / 2), pos = 0\<rparr>
     = (Inr [0], \<lparr>draws = (\<lambda>n. 1 / 2), pos = 1\<rparr>) \<and>
   projection_kernel_sampler_Schur
     (Float64 [[1, 0, 0], [0, 0, 0], [0, 0, 0]]) None \<lparr>draws = (\<lambda>n. 1 / 2), pos = 0\<rparr>
     = (Inr [0], \<lparr>draws = (\<lambda>n. 1 / 2), pos = 1\<rparr>)"
proof -
  have v: "valid_rng \<lparr>draws = (\<lambda>n. 1 / 2), pos = 0\<rparr>"
    by (simp add: valid_rng_def)
  show ?thesis
    using v rank_one_kernel_sample [OF v] by simp
qed


section \<open>The second step of the Schur sampler\<close>

lemma K_oblique3_projection: "is_projection (entries K_oblique3)"
  by code_simp

lemma K_oblique3_steps: "fst (Schur_steps K_oblique3 2 zero_draws [0, 1]) = Inr ()"
  by code_simp

lemma K_oblique3_sample: "Schur_sample (snd (Schur_steps K_oblique3 2 zero_draws [0, 1])) = [0, 1]"
  by code_simp

lemma K_oblique3_K1:
  "block 2 (Schur_K1 (snd (Schur_steps K_oblique3 2 zero_draws [0, 1]))) = [[6, 4], [4, 4]]"
  by code_simp

lemma K_oblique3_not_inverse:
  "\<not> inverse_of [[6, 4], [4, 4]] (submatrix (entries K_oblique3) [0, 1])"
  by code_simp

lemma K_oblique3_inverse:
  "inverse_of [[3, 1], [2, 2]] (submatrix (entries K_oblique3) [0, 1])"
  by code_simp

text \<open>
  Claim C1, at a kernel where it fails. \<open>K_oblique3\<close> is a projection that is not symmetric.
  With draws 0 the Schur sampler selects 0 and then 1, and its step \<^verbatim>\<open>it = 1\<close> stores
  [[6, 4], [4, 4]] in \<^verbatim>\<open>K1[:2, :2]\<close>. That is not the inverse of the block of \<open>K\<close> on the
  indices 0 and 1, which is [[3, 1], [2, 2]]: the branch writes \<^verbatim>\<open>-K[j, i]\<close> in both
  off-diagonal places and \<^verbatim>\<open>K[j, i] ** 2\<close> in the determinant, so it is right only
  where \<^verbatim>\<open>K[i, j] = K[j, i]\<close>.
\<close>

theorem Schur_second_block_not_inverse:
  "is_projection (entries K_oblique3) \<and>
   fst (Schur_steps K_oblique3 2 zero_draws [0, 1]) = Inr () \<and>
   Schur_sample (snd (Schur_steps K_oblique3 2 zero_draws [0, 1])) = [0, 1] \<and>
   block 2 (Schur_K1 (snd (Schur_steps K_oblique3 2 zero_draws [0, 1]))) = [[6, 4], [4, 4]] \<and>
   \<not> inverse_of [[6, 4], [4, 4]] (submatrix (entries K_oblique3) [0, 1]) \<and>
   inverse_of [[3, 1], [2, 2]] (submatrix (entries K_oblique3) [0, 1])"
  using K_oblique3_projection K_oblique3_steps K_oblique3_sample K_oblique3_K1
    K_oblique3_not_inverse K_oblique3_inverse
  by simp

section \<open>The sum of the Schur complements\<close>

lemma K_oblique4_projection: "is_projection (entries K_oblique4)"
  by code_simp

lemma K_oblique4_rank: "rank_of K_oblique4 = 3"
  by code_simp

lemma K_oblique4_steps: "fst (Schur_steps K_oblique4 3 zero_draws [0, 1]) = Inr ()"
  by code_simp

lemma K_oblique4_rem:
  "masked (Schur_rem (snd (Schur_steps K_oblique4 3 zero_draws [0, 1]))) = [2, 3]"
  by code_simp

lemma K_oblique4_schur:
  "map (\<lambda>r. Schur_schur (snd (Schur_steps K_oblique4 3 zero_draws [0, 1])) ! r) [2, 3]
     = [1/5, 1/5]"
  by code_simp

lemma K_oblique4_result:
  "fst (projection_kernel_sampler_Schur K_oblique4 None zero_draws)
     = Inl (ValueError ''probabilities do not sum to 1'')"
  by code_simp

text \<open>
  Claim C2, at a kernel where it fails. \<open>K_oblique4\<close> is a projection of trace 3. With
  draws 0 the Schur sampler selects 0 and then 1; at the start of step 2 the indices left
  are 2 and 3 and their Schur complements are 1/5 and 1/5, whose sum 2/5 is not
  \<open>rank - 2 = 1\<close>. The weights of step 2 then sum to 2/5 and the selection raises. The
  wrong values come from the block that step 1 stored (claim C1).
\<close>

theorem Schur_residual_sum_breaks:
  "is_projection (entries K_oblique4) \<and>
   rank_of K_oblique4 = 3 \<and>
   fst (Schur_steps K_oblique4 3 zero_draws [0, 1]) = Inr () \<and>
   masked (Schur_rem (snd (Schur_steps K_oblique4 3 zero_draws [0, 1]))) = [2, 3] \<and>
   sum_list (map (\<lambda>r. Schur_schur (snd (Schur_steps K_oblique4 3 zero_draws [0, 1])) ! r)
               (masked (Schur_rem (snd (Schur_steps K_oblique4 3 zero_draws [0, 1])))))
     = 2 / 5 \<and>
   fst (projection_kernel_sampler_Schur K_oblique4 None zero_draws)
     = Inl (ValueError ''probabilities do not sum to 1'')"
  using K_oblique4_projection K_oblique4_rank K_oblique4_steps K_oblique4_rem K_oblique4_schur
    K_oblique4_result
  by simp

section \<open>The Gram-Schmidt sampler on a complex kernel\<close>

lemma K_complex3_hermitian_projection:
  "is_hermitian (entries K_complex3) \<and> is_projection (entries K_complex3)"
  by code_simp

lemma K_complex3_rank: "rank_of K_complex3 = 2"
  by (simp add: K_complex3_def rank_of_def trace_def len_def tab_def rint_def upt_3)

lemma K_complex3_entries:
  "entries K_complex3 = [[1/2, \<i>/2, 0], [-\<i>/2, 1/2, 0], [0, 0, 1]]" "iscomplexobj K_complex3"
  by (simp_all add: K_complex3_def)

lemma choice_quarter_quarter_half:
  "choice [0, Suc 0, Suc (Suc 0)] [1/4, 1/4, 1/2] zero_draws = (Inr 0, zero_draws\<lparr>pos := 1\<rparr>)"
  by (simp add: choice_def atol_def cumsum_def tab_def upt_3 random_sample_def
      searchsorted_right_def zero_draws_def)

text \<open>
  Claim C4, at a kernel where it fails. \<open>K_complex3\<close> is a complex Hermitian projection of
  rank 2. The Gram-Schmidt sampler draws once, selects index 0, and then raises a
  \<^verbatim>\<open>TypeError\<close> on \<^verbatim>\<open>norm_2[rem] -= c[rem, it] ** 2\<close>: the right-hand side is complex and
  \<^verbatim>\<open>norm_2\<close> is a real array. No step after the first selection completes.
\<close>

theorem GS_complex_kernel_raises:
  "is_hermitian (entries K_complex3) \<and> is_projection (entries K_complex3) \<and>
   orthogonal_projection_kernel_sampler_GS K_complex3 None zero_draws =
     (Inl (TypeError ''Cannot cast ufunc subtract output from complex128 to float64''),
      zero_draws\<lparr>pos := 1\<rparr>)"
  using K_complex3_hermitian_projection
  by (simp add: orthogonal_projection_kernel_sampler_GS_def GS_steps_def GS_init_def
      K_complex3_rank K_complex3_entries py_range_def len_def GS_body_def masked_def upt_3
      diagonal_real_def tab_def choice_quarter_quarter_half deflate_def
      upt_rec [of 0 2] upt_rec [of 1 2] Let_def)

section \<open>The Hermitian swap of the Cholesky sampler\<close>

text \<open>The entries of the arrays that \<^const>\<open>tab\<close> and \<^const>\<open>tab2\<close> build, and of the five
  assignments.\<close>

lemma tab_nth: "i < n \<Longrightarrow> tab n f ! i = f i"
  by (simp add: tab_def)

lemma length_tab: "length (tab n f) = n"
  by (simp add: tab_def)

lemma tab2_nth: "r < n \<Longrightarrow> c < m \<Longrightarrow> tab2 n m f ! r ! c = f r c"
  by (simp add: tab2_def tab_nth)

lemma length_tab2: "length (tab2 n m f) = n"
  by (simp add: tab2_def length_tab)

lemma length_swaps:
  "length (bottom_swap j t A) = length A"
  "length (inner_swap j t A) = length A"
  "length (corner_swap j t A) = length A"
  "length (diagonal_swap j t A) = length A"
  "length (left_swap j t A) = length A"
  by (simp_all add: bottom_swap_def inner_swap_def corner_swap_def diagonal_swap_def
      left_swap_def length_tab2 Let_def)

lemma bottom_swap_nth:
  "r < length A \<Longrightarrow> c < length A \<Longrightarrow>
   bottom_swap j t A ! r ! c =
     (if t < r \<and> c = j then A ! r ! t else if t < r \<and> c = t then A ! r ! j else A ! r ! c)"
  by (simp add: bottom_swap_def tab2_nth)

lemma inner_swap_nth:
  "r < length A \<Longrightarrow> c < length A \<Longrightarrow> t < length A \<Longrightarrow>
   inner_swap j t A ! r ! c =
     (if r = t \<and> j < c \<and> c < t then cnj (A ! c ! j)
      else if j < r \<and> r < t \<and> c = j then cnj (A ! t ! r) else A ! r ! c)"
  by (auto simp add: inner_swap_def tab2_nth Let_def)

lemma corner_swap_nth:
  "r < length A \<Longrightarrow> c < length A \<Longrightarrow>
   corner_swap j t A ! r ! c = (if r = t \<and> c = j then cnj (A ! t ! j) else A ! r ! c)"
  by (simp add: corner_swap_def tab2_nth)

lemma diagonal_swap_nth:
  "r < length A \<Longrightarrow> c < length A \<Longrightarrow>
   diagonal_swap j t A ! r ! c =
     (if r = t \<and> c = t then complex_of_real (Re (A ! j ! j))
      else if r = j \<and> c = j then complex_of_real (Re (A ! t ! t))
      else A ! r ! c)"
  by (simp add: diagonal_swap_def tab2_nth)

lemma left_swap_nth:
  "r < length A \<Longrightarrow> c < length A \<Longrightarrow>
   left_swap j t A ! r ! c =
     (if r = t \<and> c < j then A ! j ! c else if r = j \<and> c < j then A ! t ! c else A ! r ! c)"
  by (simp add: left_swap_def tab2_nth)

lemma hermitian_nth:
  assumes "is_hermitian A" "r < length A" "c < length A"
  shows "A ! c ! r = cnj (A ! r ! c)"
proof -
  have "A ! c ! r = conj_transpose A ! c ! r"
    using assms(1) by (simp add: is_hermitian_def)
  also have "\<dots> = cnj (A ! r ! c)"
    using assms(2,3) by (simp add: conj_transpose_def tab2_nth)
  finally show ?thesis .
qed

lemma hermitian_diag:
  assumes "is_hermitian A" "r < length A"
  shows "complex_of_real (Re (A ! r ! r)) = A ! r ! r"
proof -
  have "A ! r ! r = cnj (A ! r ! r)"
    using hermitian_nth [OF assms(1) assms(2) assms(2)] .
  then have "Im (A ! r ! r) = 0"
    by (metis Reals_cnj_iff complex_is_Real_iff)
  then show ?thesis
    by (simp add: complex_eq_iff)
qed


lemmas swap_nth = bottom_swap_nth inner_swap_nth corner_swap_nth diagonal_swap_nth left_swap_nth
  length_swaps

lemma hs_above:
  assumes "j \<le> t" "t < length A" "r < length A" "c \<le> r" "r < j"
  shows "hermitian_swap j t A ! r ! c = A ! r ! c"
  using assms by (simp add: hermitian_swap_def swap_nth)

lemma hs_row_j:
  assumes "is_hermitian A" "j \<le> t" "t < length A" "c \<le> j"
  shows "hermitian_swap j t A ! j ! c = A ! t ! (if c = j then t else c)"
  using assms hermitian_diag [of A t] by (simp add: hermitian_swap_def swap_nth)

lemma hs_between:
  assumes "is_hermitian A" "j < r" "r < t" "t < length A" "c \<le> r"
  shows "hermitian_swap j t A ! r ! c = (if c = j then A ! r ! t else A ! r ! c)"
  using assms hermitian_nth [of A t r] by (simp add: hermitian_swap_def swap_nth)

lemma hs_row_t:
  assumes "is_hermitian A" "j < t" "t < length A" "c \<le> t"
  shows "hermitian_swap j t A ! t ! c = A ! j ! (if c = j then t else if c = t then j else c)"
  using assms hermitian_diag [of A j] hermitian_nth [of A c j] hermitian_nth [of A t j]
  by (simp add: hermitian_swap_def swap_nth)

lemma hs_below:
  assumes "j \<le> t" "t < r" "r < length A" "c \<le> r"
  shows "hermitian_swap j t A ! r ! c = A ! r ! (if c = j then t else if c = t then j else c)"
  using assms by (simp add: hermitian_swap_def swap_nth)


lemma tab2_cong:
  assumes "\<And>r c. r < n \<Longrightarrow> c < m \<Longrightarrow> f r c = g r c"
  shows "tab2 n m f = tab2 n m g"
  using assms by (simp add: tab2_def tab_def)

lemma exchange_less: "j < n \<Longrightarrow> t < n \<Longrightarrow> i < n \<Longrightarrow> exchange j t i < n"
  by (simp add: exchange_def)

lemma length_hermitian_swap: "length (hermitian_swap j t A) = length A"
  by (simp add: hermitian_swap_def length_swaps)

lemma hs_lower:
  assumes "is_hermitian A" "j \<le> t" "t < length A" "r < length A" "c \<le> r"
  shows "hermitian_swap j t A ! r ! c = A ! exchange j t r ! exchange j t c"
proof -
  consider "r < j" | "r = j" | "j < r" "r < t" | "r = t" "j < t" | "t < r"
    using assms(2) by linarith
  then show ?thesis
  proof cases
    case 1
    then show ?thesis
      using assms hs_above [of j t A r c] by (simp add: exchange_def)
  next
    case 2
    then show ?thesis
      using assms hs_row_j [of A j t c] by (auto simp add: exchange_def)
  next
    case 3
    then show ?thesis
      using assms hs_between [of A j r t c] by (auto simp add: exchange_def)
  next
    case 4
    then show ?thesis
      using assms hs_row_t [of A j t c] by (auto simp add: exchange_def)
  next
    case 5
    then show ?thesis
      using assms hs_below [of j t r A c] by (auto simp add: exchange_def)
  qed
qed

lemma permuted_hermitian:
  assumes "is_hermitian A" "j \<le> t" "t < length A"
  shows "is_hermitian (permuted j t A)"
proof -
  have "conj_transpose (permuted j t A) = permuted j t A"
    unfolding conj_transpose_def permuted_def length_tab2
  proof (rule tab2_cong)
    fix r c assume rc: "r < length A" "c < length A"
    have "exchange j t r < length A" "exchange j t c < length A"
      using assms rc by (simp_all add: exchange_less)
    then show "cnj (tab2 (length A) (length A) (\<lambda>r c. A ! exchange j t r ! exchange j t c) ! c ! r)
      = A ! exchange j t r ! exchange j t c"
      using rc hermitian_nth [OF assms(1), of "exchange j t c" "exchange j t r"]
      by (simp add: tab2_nth)
  qed
  then show ?thesis
    by (simp add: is_hermitian_def)
qed

lemma hs_completion:
  assumes "is_hermitian A" "j \<le> t" "t < length A"
  shows "lower_completion (hermitian_swap j t A) = permuted j t A"
  unfolding lower_completion_def permuted_def length_hermitian_swap
proof (rule tab2_cong)
  fix r c assume rc: "r < length A" "c < length A"
  have ex: "exchange j t r < length A" "exchange j t c < length A"
    using assms rc by (simp_all add: exchange_less)
  show "(if c \<le> r then hermitian_swap j t A ! r ! c else cnj (hermitian_swap j t A ! c ! r))
      = A ! exchange j t r ! exchange j t c"
  proof (cases "c \<le> r")
    case True
    then show ?thesis
      using hs_lower [OF assms rc(1)] by simp
  next
    case False
    then have "r \<le> c" by simp
    then show ?thesis
      using False hs_lower [OF assms rc(2), of r] hermitian_nth [OF assms(1) ex(2) ex(1)]
      by simp
  qed
qed

text \<open>
  Claim C3. For a Hermitian matrix \<open>A\<close> and indices \<open>j \<le> t < N\<close>, the five assignments of
  the Hermitian swap (bottom, inner, corner, diagonal, left) leave in every entry of the lower
  triangle, the diagonal included, the entry of \<open>P A P\<^sup>T\<close>, where \<open>P\<close> exchanges \<open>j\<close> and
  \<open>t\<close>. The diagonal stays real, and the matrix that the lower triangle stands for is the
  Hermitian matrix \<open>P A P\<^sup>T\<close>. (The entries above the diagonal are not written by the swap
  and not read by the sampler.)
\<close>

theorem hermitian_swap_is_permutation:
  assumes "is_hermitian A" and "j \<le> t" and "t < length A" and "r < length A" and "c \<le> r"
  shows "hermitian_swap j t A ! r ! c = permuted j t A ! r ! c
       \<and> Im (hermitian_swap j t A ! r ! r) = 0
       \<and> lower_completion (hermitian_swap j t A) = permuted j t A
       \<and> is_hermitian (permuted j t A)"
proof -
  have ex: "exchange j t r < length A"
    using assms by (simp add: exchange_less)
  have c: "c < length A"
    using assms by simp
  have 1: "hermitian_swap j t A ! r ! c = permuted j t A ! r ! c"
    using assms c hs_lower [of A j t r c] by (simp add: permuted_def tab2_nth)
  have "hermitian_swap j t A ! r ! r = A ! exchange j t r ! exchange j t r"
    using assms hs_lower [of A j t r r] by simp
  also have "\<dots> = complex_of_real (Re (A ! exchange j t r ! exchange j t r))"
    using hermitian_diag [OF assms(1) ex] by simp
  finally have 2: "Im (hermitian_swap j t A ! r ! r) = 0"
    by (metis Im_complex_of_real)
  show ?thesis
    using 1 2 hs_completion [OF assms(1-3)] permuted_hermitian [OF assms(1-3)] by simp
qed

text \<open>
  The swap of the indices 0 and 2 of a \<open>3 \<times> 3\<close> Hermitian matrix: the inner swap is not
  empty there.
\<close>

lemma H3_hermitian: "is_hermitian H3"
  by code_simp

lemma H3_permuted:
  "permuted 0 2 H3 = [[6, 5 - 2 * \<i>, 3 + \<i>], [5 + 2 * \<i>, 4, 2 - \<i>], [3 - \<i>, 2 + \<i>, 1]]"
  by code_simp

lemma H3_swapped:
  "hermitian_swap 0 2 H3 = [[6, 2 + \<i>, 3 - \<i>], [5 + 2 * \<i>, 4, 5 + 2 * \<i>], [3 - \<i>, 2 + \<i>, 1]]"
  by code_simp

theorem hermitian_swap_is_permutation_witness:
  "is_hermitian H3 \<and> (0::nat) \<le> 2 \<and> 2 < length H3 \<and> (1::nat) \<le> 2
   \<and> hermitian_swap 0 2 H3 ! 2 ! 1 = 2 + \<i>
   \<and> Im (hermitian_swap 0 2 H3 ! 2 ! 2) = 0
   \<and> lower_completion (hermitian_swap 0 2 H3)
       = [[6, 5 - 2 * \<i>, 3 + \<i>], [5 + 2 * \<i>, 4, 2 - \<i>], [3 - \<i>, 2 + \<i>, 1]]
   \<and> is_hermitian (permuted 0 2 H3)"
  using hermitian_swap_is_permutation [of H3 0 2 2 1] H3_hermitian H3_permuted
  by (simp add: H3_def)

section \<open>The size, the distinctness and the range of a sample\<close>

text \<open>\<^verbatim>\<open>rng.choice\<close> returns one of the candidates, and a loop keeps an invariant that
  each of its steps keeps.\<close>

lemma length_cumsum: "length (cumsum p) = length p"
  by (simp add: cumsum_def tab_def)

lemma last_cumsum: "p \<noteq> [] \<Longrightarrow> last (cumsum p) = sum_list p"
  by (simp add: cumsum_def tab_def last_map last_conv_nth)

lemma searchsorted_right_less:
  assumes "cdf \<noteq> []" "u < last cdf"
  shows "searchsorted_right cdf u < length cdf"
proof -
  have "last cdf \<in> set cdf" "\<not> last cdf \<le> u"
    using assms by simp_all
  then have "\<not> (\<forall>x \<in> set cdf. x \<le> u)"
    by blast
  then have "takeWhile (\<lambda>x. x \<le> u) cdf \<noteq> cdf"
    by (simp add: takeWhile_eq_all_conv)
  moreover have "length (takeWhile (\<lambda>x. x \<le> u) cdf) \<le> length cdf"
    by (rule length_takeWhile_le)
  ultimately show ?thesis
    unfolding searchsorted_right_def
    by (metis le_neq_implies_less takeWhile_eq_take take_all_iff order_refl)
qed

lemma atol_less_1: "atol < 1"
  by (simp add: atol_def)

lemma choice_member:
  assumes "valid_rng rng" "choice a p rng = (Inr x, rng')"
  shows "x \<in> set a \<and> valid_rng rng'"
proof -
  have a: "a \<noteq> []" and len: "length p = length a" and sum: "\<not> atol < \<bar>sum_list p - 1\<bar>"
    using assms(2) by (auto simp add: choice_def split: if_splits)
  define cdf where "cdf = map (\<lambda>x. x / last (cumsum p)) (cumsum p)"
  have p: "p \<noteq> []"
    using a len by auto
  have pos: "0 < sum_list p"
    using sum atol_less_1 by linarith
  have ne: "cdf \<noteq> []"
    using p by (simp add: cdf_def cumsum_def tab_def)
  have "last cdf = last (cumsum p) / last (cumsum p)"
    using p by (simp add: cdf_def last_map cumsum_def tab_def)
  then have last: "last cdf = 1"
    using pos p by (simp add: last_cumsum)
  have u: "draws rng (pos rng) < last cdf"
    using assms(1) last by (simp add: valid_rng_def)
  have idx: "searchsorted_right cdf (draws rng (pos rng)) < length a"
    using searchsorted_right_less [OF ne u] len by (simp add: cdf_def length_cumsum)
  have res: "x = a ! searchsorted_right cdf (draws rng (pos rng))"
    and rng': "rng' = rng\<lparr>pos := Suc (pos rng)\<rparr>"
    using assms(2) a len sum
    by (auto simp add: choice_def Let_def random_sample_def cdf_def split: if_splits)
  show ?thesis
    using idx res rng' assms(1) by (simp add: valid_rng_def)
qed

lemma for_range_invariant:
  assumes "for_range body [k..<n] s = (Inr (), s')"
    and "I k s" and "k \<le> n"
    and step: "\<And>i s s1 brk. k \<le> i \<Longrightarrow> i < n \<Longrightarrow> I i s \<Longrightarrow> body i s = (Inr brk, s1)
                \<Longrightarrow> I (Suc i) s1 \<and> (brk \<longrightarrow> Suc i = n)"
  shows "I n s'"
  using assms
proof (induction "n - k" arbitrary: k s)
  case 0
  then show ?case by simp
next
  case (Suc m)
  then have kn: "k < n" by simp
  then have upt: "[k..<n] = k # [Suc k..<n]"
    by (simp add: upt_conv_Cons)
  obtain r s1 where b: "body k s = (r, s1)"
    by (cases "body k s")
  show ?case
  proof (cases r)
    case (Inl e)
    then show ?thesis
      using Suc.prems(1) upt b by simp
  next
    case (Inr brk)
    have st: "I (Suc k) s1 \<and> (brk \<longrightarrow> Suc k = n)"
      using Suc.prems(4) [of k s brk s1] kn Suc.prems(2) b Inr by simp
    show ?thesis
    proof (cases brk)
      case True
      then have "s1 = s'" "Suc k = n"
        using Suc.prems(1) upt b Inr st by simp_all
      then show ?thesis
        using st by blast
    next
      case False
      then have run: "for_range body [Suc k..<n] s1 = (Inr (), s')"
        using Suc.prems(1) upt b Inr by simp
      have m: "m = n - Suc k"
        using Suc.hyps(2) by simp
      show ?thesis
      proof (rule Suc.hyps(1) [OF m run])
        show "I (Suc k) s1" using st by simp
        show "Suc k \<le> n" using kn by simp
        fix i s s1 brk
        assume "Suc k \<le> i" "i < n" "I i s" "body i s = (Inr brk, s1)"
        then show "I (Suc i) s1 \<and> (brk \<longrightarrow> Suc i = n)"
          using Suc.prems(4) [of i s brk s1] by simp
      qed
    qed
  qed
qed


text \<open>One selection step of the Gram-Schmidt and of the Schur sampler, and what a step of
  each loop body leaves behind.\<close>

lemma masked_member: "j \<in> set (masked rem) \<longleftrightarrow> j < length rem \<and> rem ! j"
  by (auto simp add: masked_def)

lemma select_step:
  assumes "j \<in> set (masked rem)" "length rem = N" "length sample = n" "it < n"
    and "distinct (take it sample)"
    and "\<forall>x \<in> set (take it sample). x < N \<and> \<not> rem ! x"
  shows "distinct (take (Suc it) (sample[it := j]))
       \<and> (\<forall>x \<in> set (take (Suc it) (sample[it := j])). x < N \<and> \<not> rem[j := False] ! x)"
proof -
  have j: "j < N" "rem ! j"
    using assms(1,2) by (simp_all add: masked_member)
  have tk: "take (Suc it) (sample[it := j]) = take it sample @ [j]"
    using assms(3,4) by (simp add: take_Suc_conv_app_nth)
  have new: "j \<notin> set (take it sample)"
    using assms(6) j by blast
  have d: "distinct (take (Suc it) (sample[it := j]))"
    using tk new assms(5) by simp
  have "x < N \<and> \<not> rem[j := False] ! x" if x: "x \<in> set (take (Suc it) (sample[it := j]))" for x
  proof -
    consider "x = j" | "x \<in> set (take it sample)" "x \<noteq> j"
      using x tk by auto
    then show ?thesis
    proof cases
      case 1
      then show ?thesis using j assms(2) by simp
    next
      case 2
      then show ?thesis using assms(6) by simp
    qed
  qed
  then show ?thesis
    using d by blast
qed

lemma GS_body_Inr:
  assumes "GS_body K cplx rank sz it s = (Inr brk, s1)"
  shows "\<exists>j rng'.
           choice (masked (GS_rem s))
             (map (\<lambda>r. \<bar>GS_norm_2 s ! r\<bar> / real_of_int (rank - int it)) (masked (GS_rem s)))
             (GS_rng s) = (Inr j, rng')
         \<and> GS_sample s1 = (GS_sample s)[it := j] \<and> GS_rem s1 = (GS_rem s)[j := False]
         \<and> GS_rng s1 = rng' \<and> (brk \<longrightarrow> int it = sz - 1)"
  using assms
  by (auto simp add: GS_body_def Let_def split: prod.splits sum.splits if_splits)

lemma Schur_body_Inr:
  assumes "Schur_body K rank sz it s = (Inr brk, s1)"
  shows "\<exists>j rng'.
           choice (masked (Schur_rem s))
             (map (\<lambda>r. \<bar>Schur_schur s ! r\<bar> / real_of_int (rank - int it)) (masked (Schur_rem s)))
             (Schur_rng s) = (Inr j, rng')
         \<and> Schur_sample s1 = (Schur_sample s)[it := j] \<and> Schur_rem s1 = (Schur_rem s)[j := False]
         \<and> Schur_rng s1 = rng' \<and> (brk \<longrightarrow> sz - 1 \<le> int it)"
  using assms
  by (auto simp add: Schur_body_def Let_def split: prod.splits sum.splits if_splits)

lemma length_set_pivot: "length (set_pivot j d A) = length A"
  by (simp add: set_pivot_def length_tab2)

lemma length_form_column: "length (form_column j A) = length A"
  by (simp add: form_column_def length_tab2 Let_def)

lemma Chol_body_Inr:
  assumes "Chol_body cplx rank sz j s = (Inr brk, s1)"
  shows "\<exists>t rng'.
           choice [j..<length (Chol_A s)]
             (map (\<lambda>x. \<bar>x\<bar> / real_of_int (rank - int j)) (drop j (Chol_d s)))
             (Chol_rng s) = (Inr t, rng')
         \<and> Chol_ground_set s1 = swap_positions j t (Chol_ground_set s)
         \<and> length (Chol_A s1) = length (Chol_A s)
         \<and> Chol_rng s1 = rng' \<and> (brk \<longrightarrow> int j = sz - 1)"
  using assms
  by (auto simp add: Chol_body_def Let_def length_set_pivot length_form_column
      length_hermitian_swap split: prod.splits sum.splits if_splits)


lemma GS_steps_sample:
  assumes "valid_rng rng" "0 \<le> sz" "GS_steps K sz rng (py_range sz) = (Inr (), s)"
  shows "length (GS_sample s) = nat sz \<and> distinct (GS_sample s)
       \<and> set (GS_sample s) \<subseteq> {0..<len K}"
proof -
  let ?I = "\<lambda>k s. valid_rng (GS_rng s) \<and> length (GS_rem s) = len K
              \<and> length (GS_sample s) = nat sz \<and> distinct (take k (GS_sample s))
              \<and> (\<forall>x \<in> set (take k (GS_sample s)). x < len K \<and> \<not> GS_rem s ! x)"
  have run: "for_range (GS_body (entries K) (iscomplexobj K) (rank_of K) sz) [0..<nat sz]
               (GS_init K sz rng) = (Inr (), s)"
    using assms(3) by (simp add: GS_steps_def py_range_def)
  have "?I (nat sz) s"
  proof (rule for_range_invariant [where I = ?I, OF run])
    show "?I 0 (GS_init K sz rng)"
      using assms(1) by (simp add: GS_init_def)
    show "0 \<le> nat sz"
      by simp
    fix i s s1 brk
    assume i: "i < nat sz" and inv: "?I i s"
      and body: "GS_body (entries K) (iscomplexobj K) (rank_of K) sz i s = (Inr brk, s1)"
    obtain j rng' where
      ch: "choice (masked (GS_rem s))
             (map (\<lambda>r. \<bar>GS_norm_2 s ! r\<bar> / real_of_int (rank_of K - int i)) (masked (GS_rem s)))
             (GS_rng s) = (Inr j, rng')"
      and s1: "GS_sample s1 = (GS_sample s)[i := j]" "GS_rem s1 = (GS_rem s)[j := False]"
        "GS_rng s1 = rng'"
      and brk: "brk \<longrightarrow> int i = sz - 1"
      using GS_body_Inr [OF body] by blast
    have mem: "j \<in> set (masked (GS_rem s))" and rng': "valid_rng rng'"
      using choice_member [OF _ ch] inv by simp_all
    have sel: "distinct (take (Suc i) ((GS_sample s)[i := j]))
        \<and> (\<forall>x \<in> set (take (Suc i) ((GS_sample s)[i := j])).
              x < len K \<and> \<not> (GS_rem s)[j := False] ! x)"
    proof (rule select_step [where n = "nat sz"])
      show "j \<in> set (masked (GS_rem s))" by (rule mem)
      show "length (GS_rem s) = len K" using inv by simp
      show "length (GS_sample s) = nat sz" using inv by simp
      show "i < nat sz" by (rule i)
      show "distinct (take i (GS_sample s))" using inv by simp
      show "\<forall>x \<in> set (take i (GS_sample s)). x < len K \<and> \<not> GS_rem s ! x" using inv by simp
    qed
    have "Suc i = nat sz" if brk
      using that brk by simp
    then show "?I (Suc i) s1 \<and> (brk \<longrightarrow> Suc i = nat sz)"
      using s1 rng' inv sel by simp
  qed
  then have inv: "length (GS_sample s) = nat sz" "distinct (take (nat sz) (GS_sample s))"
    "\<forall>x \<in> set (take (nat sz) (GS_sample s)). x < len K"
    by blast+
  have "take (nat sz) (GS_sample s) = GS_sample s"
    using inv(1) by simp
  then show ?thesis
    using inv by auto
qed

lemma Schur_steps_sample:
  assumes "valid_rng rng" "0 \<le> sz" "Schur_steps K sz rng (py_range sz) = (Inr (), s)"
  shows "length (Schur_sample s) = nat sz \<and> distinct (Schur_sample s)
       \<and> set (Schur_sample s) \<subseteq> {0..<len K}"
proof -
  let ?I = "\<lambda>k s. valid_rng (Schur_rng s) \<and> length (Schur_rem s) = len K
              \<and> length (Schur_sample s) = nat sz \<and> distinct (take k (Schur_sample s))
              \<and> (\<forall>x \<in> set (take k (Schur_sample s)). x < len K \<and> \<not> Schur_rem s ! x)"
  have run: "for_range (Schur_body (entries K) (rank_of K) sz) [0..<nat sz]
               (Schur_init K sz rng) = (Inr (), s)"
    using assms(3) by (simp add: Schur_steps_def py_range_def)
  have "?I (nat sz) s"
  proof (rule for_range_invariant [where I = ?I, OF run])
    show "?I 0 (Schur_init K sz rng)"
      using assms(1) by (simp add: Schur_init_def)
    show "0 \<le> nat sz"
      by simp
    fix i s s1 brk
    assume i: "i < nat sz" and inv: "?I i s"
      and body: "Schur_body (entries K) (rank_of K) sz i s = (Inr brk, s1)"
    obtain j rng' where
      ch: "choice (masked (Schur_rem s))
             (map (\<lambda>r. \<bar>Schur_schur s ! r\<bar> / real_of_int (rank_of K - int i))
                (masked (Schur_rem s)))
             (Schur_rng s) = (Inr j, rng')"
      and s1: "Schur_sample s1 = (Schur_sample s)[i := j]" "Schur_rem s1 = (Schur_rem s)[j := False]"
        "Schur_rng s1 = rng'"
      and brk: "brk \<longrightarrow> sz - 1 \<le> int i"
      using Schur_body_Inr [OF body] by blast
    have mem: "j \<in> set (masked (Schur_rem s))" and rng': "valid_rng rng'"
      using choice_member [OF _ ch] inv by simp_all
    have sel: "distinct (take (Suc i) ((Schur_sample s)[i := j]))
        \<and> (\<forall>x \<in> set (take (Suc i) ((Schur_sample s)[i := j])).
              x < len K \<and> \<not> (Schur_rem s)[j := False] ! x)"
    proof (rule select_step [where n = "nat sz"])
      show "j \<in> set (masked (Schur_rem s))" by (rule mem)
      show "length (Schur_rem s) = len K" using inv by simp
      show "length (Schur_sample s) = nat sz" using inv by simp
      show "i < nat sz" by (rule i)
      show "distinct (take i (Schur_sample s))" using inv by simp
      show "\<forall>x \<in> set (take i (Schur_sample s)). x < len K \<and> \<not> Schur_rem s ! x" using inv by simp
    qed
    have "Suc i = nat sz" if brk
      using that brk i by linarith
    then show "?I (Suc i) s1 \<and> (brk \<longrightarrow> Suc i = nat sz)"
      using s1 rng' inv sel by simp
  qed
  then have inv: "length (Schur_sample s) = nat sz" "distinct (take (nat sz) (Schur_sample s))"
    "\<forall>x \<in> set (take (nat sz) (Schur_sample s)). x < len K"
    by blast+
  have "take (nat sz) (Schur_sample s) = Schur_sample s"
    using inv(1) by simp
  then show ?thesis
    using inv by auto
qed

lemma Chol_steps_ground_set:
  assumes "valid_rng rng" "0 \<le> sz" "Chol_steps K sz rng (py_range sz) = (Inr (), s)"
  shows "nat sz \<le> len K \<and> length (Chol_ground_set s) = len K \<and> distinct (Chol_ground_set s)
       \<and> set (Chol_ground_set s) \<subseteq> {0..<len K}"
proof -
  let ?I = "\<lambda>k s. valid_rng (Chol_rng s) \<and> length (Chol_A s) = len K
              \<and> length (Chol_ground_set s) = len K \<and> distinct (Chol_ground_set s)
              \<and> set (Chol_ground_set s) \<subseteq> {0..<len K} \<and> k \<le> len K"
  have run: "for_range (Chol_body (iscomplexobj K) (rank_of K) sz) [0..<nat sz]
               (Chol_init K rng) = (Inr (), s)"
    using assms(3) by (simp add: Chol_steps_def py_range_def)
  have "?I (nat sz) s"
  proof (rule for_range_invariant [where I = ?I, OF run])
    show "?I 0 (Chol_init K rng)"
      using assms(1) by (simp add: Chol_init_def len_def)
    show "0 \<le> nat sz"
      by simp
    fix j s s1 brk
    assume inv: "?I j s"
      and body: "Chol_body (iscomplexobj K) (rank_of K) sz j s = (Inr brk, s1)"
    obtain t rng' where
      ch: "choice [j..<length (Chol_A s)]
             (map (\<lambda>x. \<bar>x\<bar> / real_of_int (rank_of K - int j)) (drop j (Chol_d s)))
             (Chol_rng s) = (Inr t, rng')"
      and s1: "Chol_ground_set s1 = swap_positions j t (Chol_ground_set s)"
        "length (Chol_A s1) = length (Chol_A s)" "Chol_rng s1 = rng'"
      and brk: "brk \<longrightarrow> int j = sz - 1"
      using Chol_body_Inr [OF body] by blast
    have "t \<in> set [j..<length (Chol_A s)]" and rng': "valid_rng rng'"
      using choice_member [OF _ ch] inv by simp_all
    then have jt: "j < length (Chol_ground_set s)" "t < length (Chol_ground_set s)"
      using inv by simp_all
    have d: "distinct (swap_positions j t (Chol_ground_set s))"
      using jt inv distinct_swap [of t "Chol_ground_set s" j] by (simp add: swap_positions_def)
    have st: "set (swap_positions j t (Chol_ground_set s)) = set (Chol_ground_set s)"
      using jt set_swap [of t "Chol_ground_set s" j] by (simp add: swap_positions_def)
    have "Suc j = nat sz" if brk
      using that brk by simp
    then show "?I (Suc j) s1 \<and> (brk \<longrightarrow> Suc j = nat sz)"
      using s1 rng' inv d st jt by (simp add: swap_positions_def)
  qed
  then show ?thesis
    by simp
qed

text \<open>
  Claim C5. A run of one of the three samplers that returns a sample returns as many indices
  as the size asked for (the rank \<open>round (trace K)\<close> when no size is given), and the size is
  at most the rank; the indices are pairwise distinct and lie in \<open>[0, N)\<close>. The random source
  draws from \<open>[0, 1)\<close>. The size counts indices, so it is not negative: the Gram-Schmidt and
  the Schur sampler raise on a negative size before any step, which the theorem covers, and
  for the Cholesky sampler a size that is not negative is a hypothesis (the trace of a
  projection is its rank, so the default size meets it).
\<close>

theorem sample_length_distinct_in_range:
  assumes "valid_rng rng"
    and "sz = (case size_arg of None \<Rightarrow> rank_of K | Some n \<Rightarrow> n)"
    and "smp = Chol \<Longrightarrow> 0 \<le> sz"
    and "call_sampler smp K size_arg rng = (Inr sample, rng')"
  shows "int (length sample) = sz \<and> sz \<le> rank_of K \<and> distinct sample
       \<and> set sample \<subseteq> {0..<len K}"
proof (cases smp)
  case GS
  then have call: "orthogonal_projection_kernel_sampler_GS K size_arg rng = (Inr sample, rng')"
    using assms(4) by simp
  then have sz: "sz \<le> rank_of K" "0 \<le> sz"
    using assms(2)
    by (auto simp add: orthogonal_projection_kernel_sampler_GS_def Let_def split: if_splits)
  then obtain s where "GS_steps K sz rng (py_range sz) = (Inr (), s)" "sample = GS_sample s"
    using call assms(2)
    by (auto simp add: orthogonal_projection_kernel_sampler_GS_def Let_def
        split: if_splits prod.splits sum.splits)
  then show ?thesis
    using GS_steps_sample [OF assms(1) sz(2)] sz by simp
next
  case Schur
  then have call: "projection_kernel_sampler_Schur K size_arg rng = (Inr sample, rng')"
    using assms(4) by simp
  then have sz: "sz \<le> rank_of K" "0 \<le> sz"
    using assms(2)
    by (auto simp add: projection_kernel_sampler_Schur_def Let_def split: if_splits)
  then obtain s where "Schur_steps K sz rng (py_range sz) = (Inr (), s)" "sample = Schur_sample s"
    using call assms(2)
    by (auto simp add: projection_kernel_sampler_Schur_def Let_def
        split: if_splits prod.splits sum.splits)
  then show ?thesis
    using Schur_steps_sample [OF assms(1) sz(2)] sz by simp
next
  case Chol
  then have call: "orthogonal_projection_kernel_sampler_Chol K size_arg rng = (Inr sample, rng')"
    and sz0: "0 \<le> sz"
    using assms(3,4) by simp_all
  have sz: "sz \<le> rank_of K"
    using call assms(2)
    by (auto simp add: orthogonal_projection_kernel_sampler_Chol_def Let_def split: if_splits)
  then obtain s where st: "Chol_steps K sz rng (py_range sz) = (Inr (), s)"
    and sample: "sample = slice_to sz (Chol_ground_set s)"
    using call assms(2)
    by (auto simp add: orthogonal_projection_kernel_sampler_Chol_def Let_def
        split: if_splits prod.splits sum.splits)
  have gs: "nat sz \<le> len K" "length (Chol_ground_set s) = len K" "distinct (Chol_ground_set s)"
    "set (Chol_ground_set s) \<subseteq> {0..<len K}"
    using Chol_steps_ground_set [OF assms(1) sz0 st] by simp_all
  have tk: "sample = take (nat sz) (Chol_ground_set s)"
    using sample sz0 by (simp add: slice_to_def)
  have "set sample \<subseteq> set (Chol_ground_set s)"
    unfolding tk by (rule set_take_subset)
  then show ?thesis
    using gs sz sz0 tk by (auto simp add: min_def)
qed


text \<open>Two steps of the Cholesky sampler on the identity kernel of size 2.\<close>

lemma upt_2: "[0..<2] = [0, Suc 0]"
  by (simp add: upt_rec)

lemma upt_1_2: "[Suc 0..<2] = [Suc 0]"
  by (simp add: upt_rec)

lemma rank_of_identity2: "rank_of (Float64 [[1, 0], [0, 1]]) = 2"
  by (simp add: rank_of_def trace_def len_def tab_def rint_def upt_2)

lemma Chol_identity2_run:
  "orthogonal_projection_kernel_sampler_Chol (Float64 [[1, 0], [0, 1]]) (Some 2) zero_draws
     = (Inr [0, 1], zero_draws\<lparr>pos := 2\<rparr>)"
  by (simp add: orthogonal_projection_kernel_sampler_Chol_def Chol_steps_def Chol_init_def
      rank_of_identity2 py_range_def len_def Chol_body_def upt_2 diagonal_real_def tab_def tab2_def
      choice_def atol_def cumsum_def random_sample_def searchsorted_right_def zero_draws_def
      swap_positions_def slice_to_def Let_def hermitian_swap_def bottom_swap_def inner_swap_def
      corner_swap_def diagonal_swap_def left_swap_def set_pivot_def form_column_def
      update_diagonal_def dot_def upt_1_2)

theorem sample_length_distinct_in_range_witness:
  "valid_rng zero_draws \<and> (0::int) \<le> 2
   \<and> call_sampler Chol (Float64 [[1, 0], [0, 1]]) (Some 2) zero_draws
       = (Inr [0, 1], zero_draws\<lparr>pos := 2\<rparr>)
   \<and> int (length [0, 1::nat]) = 2 \<and> 2 \<le> rank_of (Float64 [[1, 0], [0, 1]])
   \<and> distinct [0, 1::nat] \<and> set [0, 1] \<subseteq> {0..<len (Float64 [[1, 0], [0, 1]])}"
proof -
  have v: "valid_rng zero_draws"
    by (simp add: valid_rng_def zero_draws_def)
  have run: "call_sampler Chol (Float64 [[1, 0], [0, 1]]) (Some 2) zero_draws
       = (Inr [0, 1], zero_draws\<lparr>pos := 2\<rparr>)"
    by (simp add: Chol_identity2_run)
  show ?thesis
    using v run sample_length_distinct_in_range [OF v _ _ run, of 2] by simp
qed

end
